theory Spec2Isabelle
  imports Complex_Main
begin

section \<open>Double-precision values\<close>

text \<open>
  The arrays \<open>bz\<close> and \<open>bz_err\<close> and the geometry keywords are NumPy \<open>float64\<close>
  values. The properties below depend on which pixels enter the sums and on how
  the special values behave, so a value is a real number, one of the two
  infinities, or NaN. Arithmetic on finite values is exact: rounding, overflow
  and the sign of zero are left out of the model, so a sum or a product of
  finite values is finite here, where \<open>float64\<close> gives an infinity once the
  magnitude passes the largest double. The statements below are either formulas
  in these operations or facts about zero, sign and NaN. The special values follow
  IEEE 754 as NumPy implements it: NaN is absorbing, \<open>inf - inf\<close>, \<open>0 * inf\<close>,
  \<open>0 / 0\<close> and \<open>inf / inf\<close> are NaN, and a nonzero value divided by zero is an
  infinity. The geometry keywords are read from the keyword table of the data
  query and are NumPy scalars, so a division by zero warns and goes on; it does
  not raise, as a division of Python floats would.

  The arrays \<open>conf_disambig\<close> and \<open>bitmap\<close> hold integers, for which \<open>x < 70\<close> is
  the negation of \<open>x >= 70\<close>.
\<close>

datatype fval = Fin real | PInf | NInf | NaN

definition signed_inf :: "real \<Rightarrow> fval" where
  "signed_inf s = (if 0 < s then PInf else if s < 0 then NInf else NaN)"

instantiation fval :: "{zero, plus, times, uminus, abs, inverse}"
begin

definition zero_fval :: fval where
  "zero_fval = Fin 0"

fun plus_fval :: "fval \<Rightarrow> fval \<Rightarrow> fval" where
  "plus_fval NaN _ = NaN"
| "plus_fval _ NaN = NaN"
| "plus_fval (Fin x) (Fin y) = Fin (x + y)"
| "plus_fval PInf NInf = NaN"
| "plus_fval NInf PInf = NaN"
| "plus_fval PInf _ = PInf"
| "plus_fval _ PInf = PInf"
| "plus_fval NInf _ = NInf"
| "plus_fval _ NInf = NInf"

fun times_fval :: "fval \<Rightarrow> fval \<Rightarrow> fval" where
  "times_fval NaN _ = NaN"
| "times_fval _ NaN = NaN"
| "times_fval (Fin x) (Fin y) = Fin (x * y)"
| "times_fval (Fin x) PInf = signed_inf x"
| "times_fval (Fin x) NInf = signed_inf (- x)"
| "times_fval PInf (Fin y) = signed_inf y"
| "times_fval NInf (Fin y) = signed_inf (- y)"
| "times_fval PInf PInf = PInf"
| "times_fval NInf NInf = PInf"
| "times_fval PInf NInf = NInf"
| "times_fval NInf PInf = NInf"

fun divide_fval :: "fval \<Rightarrow> fval \<Rightarrow> fval" where
  "divide_fval NaN _ = NaN"
| "divide_fval _ NaN = NaN"
| "divide_fval (Fin x) (Fin y) = (if y = 0 then signed_inf x else Fin (x / y))"
| "divide_fval (Fin x) _ = Fin 0"
| "divide_fval PInf (Fin y) = (if y < 0 then NInf else PInf)"
| "divide_fval NInf (Fin y) = (if y < 0 then PInf else NInf)"
| "divide_fval _ _ = NaN"

definition inverse_fval :: "fval \<Rightarrow> fval" where
  "inverse_fval x = divide (Fin 1) x"

fun uminus_fval :: "fval \<Rightarrow> fval" where
  "uminus_fval (Fin x) = Fin (- x)"
| "uminus_fval PInf = NInf"
| "uminus_fval NInf = PInf"
| "uminus_fval NaN = NaN"

fun abs_fval :: "fval \<Rightarrow> fval" where
  "abs_fval (Fin x) = Fin \<bar>x\<bar>"
| "abs_fval PInf = PInf"
| "abs_fval NInf = PInf"
| "abs_fval NaN = NaN"

instance ..

end

text \<open>
  Addition is associative and commutative with neutral element \<open>Fin 0\<close>, and
  multiplication is associative and commutative, special values included.
\<close>

instance fval :: comm_monoid_add
proof
  fix a b c :: fval
  show "a + b + c = a + (b + c)" by (cases a; cases b; cases c; simp)
  show "a + b = b + a" by (cases a; cases b; simp)
  show "0 + a = a" by (cases a; simp add: zero_fval_def)
qed

instance fval :: ab_semigroup_mult
proof
  fix a b c :: fval
  show "a * b * c = a * (b * c)"
    by (cases a; cases b; cases c;
        simp add: signed_inf_def zero_less_mult_iff mult_less_0_iff)
  show "a * b = b * a" by (cases a; cases b; simp add: mult.commute)
qed

text \<open>\<open>np.isnan\<close>, \<open>np.sqrt\<close>, \<open>math.atan\<close> and the comparison \<open>0 <= x\<close>.\<close>

fun isnan :: "fval \<Rightarrow> bool" where
  "isnan NaN = True"
| "isnan _ = False"

fun isfinite :: "fval \<Rightarrow> bool" where
  "isfinite (Fin x) = True"
| "isfinite _ = False"

fun fsqrt :: "fval \<Rightarrow> fval" where
  "fsqrt (Fin x) = (if x < 0 then NaN else Fin (sqrt x))"
| "fsqrt PInf = PInf"
| "fsqrt NInf = NaN"
| "fsqrt NaN = NaN"

fun atan :: "fval \<Rightarrow> fval" where
  "atan (Fin x) = Fin (arctan x)"
| "atan PInf = Fin (pi / 2)"
| "atan NInf = Fin (- (pi / 2))"
| "atan NaN = NaN"

fun nonneg :: "fval \<Rightarrow> bool" where
  "nonneg (Fin x) = (0 \<le> x)"
| "nonneg PInf = True"
| "nonneg NInf = False"
| "nonneg NaN = False"


section \<open>Two-dimensional arrays\<close>

text \<open>
  An array is the list of its rows. Reading \<open>a[j,i]\<close> outside the array raises
  \<open>IndexError\<close>; the loop indices come from \<open>range\<close>, so they are never negative.
\<close>

datatype error = IndexError

definition getitem :: "'a list list \<Rightarrow> nat \<Rightarrow> nat \<Rightarrow> error + 'a" where
  "getitem a j i =
     (if j < length a \<and> i < length (a ! j) then Inr (a ! j ! i) else Inl IndexError)"

definition shape :: "'a list list \<Rightarrow> nat \<times> nat" where
  "shape a = (length a, if a = [] then 0 else length (hd a))"

definition has_shape :: "nat \<Rightarrow> nat \<Rightarrow> 'a list list \<Rightarrow> bool" where
  "has_shape ny nx a = (length a = ny \<and> list_all (\<lambda>row. length row = nx) a)"

definition covers :: "nat \<Rightarrow> nat \<Rightarrow> 'a list list \<Rightarrow> bool" where
  "covers ny nx a = (ny \<le> length a \<and> list_all (\<lambda>row. nx \<le> length row) (take ny a))"


section \<open>The geometry scalar \<open>cdelt1_arcsec\<close>\<close>

text \<open>
  The constant \<open>radsindeg\<close> and the last computed line of
  \<open>get_data_for_a_single_trec_dask\<close> and \<open>get_data_for_a_single_trec_numpy\<close>.
  The two functions have the same line; the rest of them fetches the arrays and
  the keywords \<open>RSUN_REF\<close>, \<open>RSUN_OBS\<close>, \<open>CDELT1\<close> and \<open>DSUN_OBS\<close>.
  \<^verbatim>\<open>
  radsindeg = np.pi/180.
  cdelt1_arcsec = (math.atan((rsun_ref*cdelt1*radsindeg)/(dsun_obs)))*(1/radsindeg)*(3600.)
  \<close>
\<close>

definition radsindeg :: fval where
  "radsindeg = Fin pi / Fin 180"

definition get_cdelt1_arcsec :: "fval \<Rightarrow> fval \<Rightarrow> fval \<Rightarrow> fval" where
  "get_cdelt1_arcsec rsun_ref cdelt1 dsun_obs =
     atan ((rsun_ref * cdelt1 * radsindeg) / dsun_obs) * (Fin 1 / radsindeg) * Fin 3600"


section \<open>\<open>compute_abs_flux_dask\<close>\<close>

text \<open>
  \<^verbatim>\<open>
  def compute_abs_flux_dask(bz, bz_err, conf_disambig, bitmap, nx, ny,
                            rsun_ref, rsun_obs, cdelt1_arcsec):
      count_mask = 0
      sum        = 0.0
      err        = 0.0
      for j in range(ny):
          for i in range(nx):
              if ( conf_disambig[j,i].compute() < 70 or bitmap[j,i].compute() < 30 ):
                  continue
              if np.isnan(bz[j,i].compute()):
                  continue
              sum += abs(bz[j,i].compute())
              err += bz_err[j,i].compute()*bz_err[j,i].compute();
              count_mask += 1
      mean_vf     = sum*cdelt1_arcsec*cdelt1_arcsec*(rsun_ref/rsun_obs)*(rsun_ref/rsun_obs)*100.0*100.0
      mean_vf_err = (np.sqrt(err))*abs(cdelt1_arcsec*cdelt1_arcsec*(rsun_ref/rsun_obs)*(rsun_ref/rsun_obs)*100.0*100.0)
      return [mean_vf, mean_vf_err, count_mask]
  \<close>
  The three running variables of the function; \<open>sum_acc\<close> is the source's \<open>sum\<close>.
\<close>

record acc =
  count_mask :: nat
  sum_acc :: fval
  err :: fval

text \<open>
  The body of the inner loop at pixel \<open>(j, i)\<close>. The reads happen in the source's
  order: \<open>or\<close> does not read the bitmap when the confidence is already below 70,
  and \<open>bz\<close> and \<open>bz_err\<close> are read only after the tests before them have passed.
\<close>

definition pixel_step ::
  "fval list list \<Rightarrow> fval list list \<Rightarrow> int list list \<Rightarrow> int list list \<Rightarrow>
   nat \<Rightarrow> nat \<Rightarrow> acc \<Rightarrow> error + acc" where
  "pixel_step bz bz_err conf_disambig bitmap j i s =
     (case getitem conf_disambig j i of
        Inl e \<Rightarrow> Inl e
      | Inr c \<Rightarrow>
          (if c < 70 then Inr s
           else (case getitem bitmap j i of
             Inl e \<Rightarrow> Inl e
           | Inr b \<Rightarrow>
               (if b < 30 then Inr s
                else (case getitem bz j i of
                  Inl e \<Rightarrow> Inl e
                | Inr v \<Rightarrow>
                    (if isnan v then Inr s
                     else (case getitem bz_err j i of
                       Inl e \<Rightarrow> Inl e
                     | Inr ev \<Rightarrow>
                         Inr \<lparr>count_mask = count_mask s + 1,
                              sum_acc = sum_acc s + \<bar>v\<bar>,
                              err = err s + ev * ev\<rparr>)))))))"

text \<open>\<open>for i in range(nx)\<close> and \<open>for j in range(ny)\<close>, over the list of indices.\<close>

fun loop_i ::
  "fval list list \<Rightarrow> fval list list \<Rightarrow> int list list \<Rightarrow> int list list \<Rightarrow>
   nat \<Rightarrow> nat list \<Rightarrow> acc \<Rightarrow> error + acc" where
  "loop_i bz bz_err conf_disambig bitmap j [] s = Inr s"
| "loop_i bz bz_err conf_disambig bitmap j (i # is) s =
     (case pixel_step bz bz_err conf_disambig bitmap j i s of
        Inl e \<Rightarrow> Inl e
      | Inr s' \<Rightarrow> loop_i bz bz_err conf_disambig bitmap j is s')"

fun loop_j ::
  "fval list list \<Rightarrow> fval list list \<Rightarrow> int list list \<Rightarrow> int list list \<Rightarrow>
   nat \<Rightarrow> nat list \<Rightarrow> acc \<Rightarrow> error + acc" where
  "loop_j bz bz_err conf_disambig bitmap nx [] s = Inr s"
| "loop_j bz bz_err conf_disambig bitmap nx (j # js) s =
     (case loop_i bz bz_err conf_disambig bitmap j [0..<nx] s of
        Inl e \<Rightarrow> Inl e
      | Inr s' \<Rightarrow> loop_j bz bz_err conf_disambig bitmap nx js s')"

text \<open>
  The function returns the list \<open>[mean_vf, mean_vf_err, count_mask]\<close>, here a triple.
  \<open>nx\<close> and \<open>ny\<close> are parameters; the callers pass the array dimensions
  \<open>bz.shape[1]\<close> and \<open>bz.shape[0]\<close>, which are natural numbers. The products
  associate to the left, as in Python.
\<close>

definition compute_abs_flux_dask ::
  "fval list list \<Rightarrow> fval list list \<Rightarrow> int list list \<Rightarrow> int list list \<Rightarrow>
   nat \<Rightarrow> nat \<Rightarrow> fval \<Rightarrow> fval \<Rightarrow> fval \<Rightarrow> error + (fval \<times> fval \<times> nat)" where
  "compute_abs_flux_dask bz bz_err conf_disambig bitmap nx ny rsun_ref rsun_obs cdelt1_arcsec =
     (case loop_j bz bz_err conf_disambig bitmap nx [0..<ny]
             \<lparr>count_mask = 0, sum_acc = Fin 0, err = Fin 0\<rparr> of
        Inl e \<Rightarrow> Inl e
      | Inr s \<Rightarrow>
          let mean_vf = sum_acc s * cdelt1_arcsec * cdelt1_arcsec
                          * (rsun_ref / rsun_obs) * (rsun_ref / rsun_obs) * Fin 100 * Fin 100;
              mean_vf_err = fsqrt (err s)
                          * \<bar>cdelt1_arcsec * cdelt1_arcsec
                              * (rsun_ref / rsun_obs) * (rsun_ref / rsun_obs) * Fin 100 * Fin 100\<bar>
          in Inr (mean_vf, mean_vf_err, count_mask s))"


section \<open>The quantities the specification names\<close>

text \<open>
  A pixel is valid when its bitmap value reaches the region threshold 30, its
  disambiguation confidence reaches the confidence threshold 70, and its field
  value is not NaN.
\<close>

definition valid ::
  "fval list list \<Rightarrow> int list list \<Rightarrow> int list list \<Rightarrow> nat \<Rightarrow> nat \<Rightarrow> bool" where
  "valid bz conf_disambig bitmap j i =
     (30 \<le> bitmap ! j ! i \<and> 70 \<le> conf_disambig ! j ! i \<and> \<not> isnan (bz ! j ! i))"

definition valid_pixels ::
  "fval list list \<Rightarrow> int list list \<Rightarrow> int list list \<Rightarrow> nat \<Rightarrow> nat \<Rightarrow> (nat \<times> nat) set" where
  "valid_pixels bz conf_disambig bitmap ny nx =
     {(j, i). j < ny \<and> i < nx \<and> valid bz conf_disambig bitmap j i}"

text \<open>The physical area of a pixel in square centimetres.\<close>

definition pixel_area ::
  "fval \<Rightarrow> fval \<Rightarrow> fval \<Rightarrow> fval" where
  "pixel_area rsun_ref rsun_obs cdelt1_arcsec =
     (cdelt1_arcsec * cdelt1_arcsec)
       * ((rsun_ref / rsun_obs) * (rsun_ref / rsun_obs))
       * (Fin 100 * Fin 100)"


text \<open>
  The sum of \<open>|bz|\<close> and the sum of the squared errors over the valid pixels.
\<close>

definition abs_flux_sum ::
  "fval list list \<Rightarrow> int list list \<Rightarrow> int list list \<Rightarrow> nat \<Rightarrow> nat \<Rightarrow> fval" where
  "abs_flux_sum bz conf_disambig bitmap ny nx =
     (\<Sum>(j, i)\<in>valid_pixels bz conf_disambig bitmap ny nx. \<bar>bz ! j ! i\<bar>)"

definition sq_err_sum ::
  "fval list list \<Rightarrow> fval list list \<Rightarrow> int list list \<Rightarrow> int list list \<Rightarrow>
   nat \<Rightarrow> nat \<Rightarrow> fval" where
  "sq_err_sum bz bz_err conf_disambig bitmap ny nx =
     (\<Sum>(j, i)\<in>valid_pixels bz conf_disambig bitmap ny nx. bz_err ! j ! i * bz_err ! j ! i)"

text \<open>
  What one contributing pixel adds to the running variables, and what a list of
  contributing pixels adds.
\<close>

definition updated :: "fval list list \<Rightarrow> fval list list \<Rightarrow> nat \<Rightarrow> nat \<Rightarrow> acc \<Rightarrow> acc" where
  "updated bz bz_err j i s =
     \<lparr>count_mask = count_mask s + 1,
      sum_acc = sum_acc s + \<bar>bz ! j ! i\<bar>,
      err = err s + bz_err ! j ! i * bz_err ! j ! i\<rparr>"

definition contrib ::
  "fval list list \<Rightarrow> fval list list \<Rightarrow> (nat \<times> nat) list \<Rightarrow> acc \<Rightarrow> acc" where
  "contrib bz bz_err ps s =
     \<lparr>count_mask = count_mask s + length ps,
      sum_acc = sum_acc s + (\<Sum>(j, i)\<leftarrow>ps. \<bar>bz ! j ! i\<bar>),
      err = err s + (\<Sum>(j, i)\<leftarrow>ps. bz_err ! j ! i * bz_err ! j ! i)\<rparr>"

text \<open>Writing \<open>x\<close> at \<open>a[j,i]\<close>, and negating every entry of an array.\<close>

definition setitem :: "'a list list \<Rightarrow> nat \<Rightarrow> nat \<Rightarrow> 'a \<Rightarrow> 'a list list" where
  "setitem a j i x = a[j := (a ! j)[i := x]]"

definition negated :: "fval list list \<Rightarrow> fval list list" where
  "negated a = map (map uminus) a"

text \<open>
  An entry that can be read, and arrays that can be read at every index of the
  two loops.
\<close>

definition readable :: "'a list list \<Rightarrow> nat \<Rightarrow> nat \<Rightarrow> bool" where
  "readable a j i = (j < length a \<and> i < length (a ! j))"

definition all_cover ::
  "nat \<Rightarrow> nat \<Rightarrow> fval list list \<Rightarrow> fval list list \<Rightarrow> int list list \<Rightarrow> int list list \<Rightarrow> bool" where
  "all_cover ny nx bz bz_err conf_disambig bitmap =
     (covers ny nx bz \<and> covers ny nx bz_err \<and> covers ny nx conf_disambig \<and> covers ny nx bitmap)"

text \<open>
  A value that is the number 0 or NaN, and a value that is not negative: at least
  0, \<open>+inf\<close> included, or NaN.
\<close>

definition zero_or_nan :: "fval \<Rightarrow> bool" where
  "zero_or_nan v = (v = Fin 0 \<or> isnan v)"

definition never_negative :: "fval \<Rightarrow> bool" where
  "never_negative v = (nonneg v \<or> isnan v)"


section \<open>The loops as sums over the valid pixels\<close>

lemma covers_getitem:
  "covers ny nx a \<Longrightarrow> j < ny \<Longrightarrow> i < nx \<Longrightarrow> getitem a j i = Inr (a ! j ! i)"
  unfolding covers_def getitem_def list_all_length by force

lemma has_shape_covers: "has_shape ny nx a \<Longrightarrow> covers ny nx a"
  unfolding has_shape_def covers_def list_all_iff by (auto dest: in_set_takeD)

lemma pixel_step_covered:
  assumes "covers ny nx bz" "covers ny nx bz_err" "covers ny nx conf_disambig"
    "covers ny nx bitmap" "j < ny" "i < nx"
  shows "pixel_step bz bz_err conf_disambig bitmap j i s =
         Inr (if valid bz conf_disambig bitmap j i then updated bz bz_err j i s else s)"
  using assms by (simp add: pixel_step_def covers_getitem valid_def updated_def)



lemma contrib_Nil: "contrib bz bz_err [] s = s"
  by (simp add: contrib_def)

lemma contrib_Cons:
  "contrib bz bz_err ((j, i) # ps) s = contrib bz bz_err ps (updated bz bz_err j i s)"
  by (simp add: contrib_def updated_def add.assoc)

lemma contrib_append:
  "contrib bz bz_err (ps @ qs) s = contrib bz bz_err qs (contrib bz bz_err ps s)"
  by (simp add: contrib_def add.assoc)

lemma loop_i_covered:
  assumes "covers ny nx bz" "covers ny nx bz_err" "covers ny nx conf_disambig"
    "covers ny nx bitmap" "j < ny"
  shows "\<forall>i\<in>set is. i < nx \<Longrightarrow>
         loop_i bz bz_err conf_disambig bitmap j is s =
         Inr (contrib bz bz_err
                (filter (\<lambda>(j, i). valid bz conf_disambig bitmap j i) (map (Pair j) is)) s)"
proof (induction "is" arbitrary: s)
  case Nil
  show ?case by (simp add: contrib_Nil)
next
  case (Cons i "is")
  from Cons.prems have "i < nx" by simp
  with assms have step: "pixel_step bz bz_err conf_disambig bitmap j i s =
      Inr (if valid bz conf_disambig bitmap j i then updated bz bz_err j i s else s)"
    by (rule pixel_step_covered)
  from Cons.prems have rest: "\<forall>i\<in>set is. i < nx" by simp
  show ?case
    by (simp add: step Cons.IH [OF rest] contrib_Cons)
qed

lemma loop_j_covered:
  assumes "covers ny nx bz" "covers ny nx bz_err" "covers ny nx conf_disambig"
    "covers ny nx bitmap"
  shows "\<forall>j\<in>set js. j < ny \<Longrightarrow>
         loop_j bz bz_err conf_disambig bitmap nx js s =
         Inr (contrib bz bz_err
                (filter (\<lambda>(j, i). valid bz conf_disambig bitmap j i)
                   (List.product js [0..<nx])) s)"
proof (induction js arbitrary: s)
  case Nil
  show ?case by (simp add: contrib_Nil)
next
  case (Cons j js)
  from Cons.prems have "j < ny" by simp
  with assms have row: "loop_i bz bz_err conf_disambig bitmap j [0..<nx] s =
      Inr (contrib bz bz_err
             (filter (\<lambda>(j, i). valid bz conf_disambig bitmap j i) (map (Pair j) [0..<nx])) s)"
    by (intro loop_i_covered) auto
  from Cons.prems have rest: "\<forall>j\<in>set js. j < ny" by simp
  show ?case
    by (simp add: row Cons.IH [OF rest] contrib_append)
qed

lemma valid_list_set:
  "set (filter (\<lambda>(j, i). valid bz conf_disambig bitmap j i) (List.product [0..<ny] [0..<nx]))
   = valid_pixels bz conf_disambig bitmap ny nx"
  by (auto simp: valid_pixels_def)

lemma valid_list_distinct:
  "distinct (filter (\<lambda>(j, i). valid bz conf_disambig bitmap j i) (List.product [0..<ny] [0..<nx]))"
  by (simp add: distinct_product)

lemma contrib_valid_list:
  "contrib bz bz_err
     (filter (\<lambda>(j, i). valid bz conf_disambig bitmap j i) (List.product [0..<ny] [0..<nx]))
     \<lparr>count_mask = 0, sum_acc = Fin 0, err = Fin 0\<rparr>
   = \<lparr>count_mask = card (valid_pixels bz conf_disambig bitmap ny nx),
      sum_acc = (\<Sum>(j, i)\<in>valid_pixels bz conf_disambig bitmap ny nx. \<bar>bz ! j ! i\<bar>),
      err = (\<Sum>(j, i)\<in>valid_pixels bz conf_disambig bitmap ny nx.
               bz_err ! j ! i * bz_err ! j ! i)\<rparr>"
proof -
  let ?L = "filter (\<lambda>(j, i). valid bz conf_disambig bitmap j i) (List.product [0..<ny] [0..<nx])"
  let ?V = "valid_pixels bz conf_disambig bitmap ny nx"
  have d: "distinct ?L" by (rule valid_list_distinct)
  have s: "set ?L = ?V" by (rule valid_list_set)
  have n: "length ?L = card ?V"
    using distinct_card [OF d] s by simp
  have sl: "(\<Sum>p\<leftarrow>?L. f p) = (\<Sum>p\<in>?V. f p)" for f :: "nat \<times> nat \<Rightarrow> fval"
    using sum_list_distinct_conv_sum_set [OF d, of f] s by simp
  have z: "Fin 0 + x = x" for x :: fval
    using add_0_left [of x] by (simp add: zero_fval_def)
  show ?thesis
    unfolding contrib_def by (simp add: n sl z)
qed

lemma compute_covered:
  assumes "covers ny nx bz" "covers ny nx bz_err" "covers ny nx conf_disambig"
    "covers ny nx bitmap"
  shows "compute_abs_flux_dask bz bz_err conf_disambig bitmap nx ny rsun_ref rsun_obs cdelt1_arcsec =
     Inr ((\<Sum>(j, i)\<in>valid_pixels bz conf_disambig bitmap ny nx. \<bar>bz ! j ! i\<bar>)
            * cdelt1_arcsec * cdelt1_arcsec
            * (rsun_ref / rsun_obs) * (rsun_ref / rsun_obs) * Fin 100 * Fin 100,
          fsqrt (\<Sum>(j, i)\<in>valid_pixels bz conf_disambig bitmap ny nx.
                   bz_err ! j ! i * bz_err ! j ! i)
            * \<bar>cdelt1_arcsec * cdelt1_arcsec
                * (rsun_ref / rsun_obs) * (rsun_ref / rsun_obs) * Fin 100 * Fin 100\<bar>,
          card (valid_pixels bz conf_disambig bitmap ny nx))"
proof -
  have "loop_j bz bz_err conf_disambig bitmap nx [0..<ny]
          \<lparr>count_mask = 0, sum_acc = Fin 0, err = Fin 0\<rparr>
        = Inr \<lparr>count_mask = card (valid_pixels bz conf_disambig bitmap ny nx),
      sum_acc = (\<Sum>(j, i)\<in>valid_pixels bz conf_disambig bitmap ny nx. \<bar>bz ! j ! i\<bar>),
      err = (\<Sum>(j, i)\<in>valid_pixels bz conf_disambig bitmap ny nx.
               bz_err ! j ! i * bz_err ! j ! i)\<rparr>"
    using loop_j_covered [OF assms, of "[0..<ny]"] by (simp add: contrib_valid_list)
  then show ?thesis
    by (simp add: compute_abs_flux_dask_def)
qed

lemma area_regroup:
  "x * c * c * r * r * Fin 100 * Fin 100 = x * ((c * c) * (r * r) * (Fin 100 * Fin 100))"
  for x c r :: fval
  by (simp only: mult.assoc)

lemma area_regroup':
  "c * c * r * r * Fin 100 * Fin 100 = (c * c) * (r * r) * (Fin 100 * Fin 100)"
  for c r :: fval
  by (simp only: mult.assoc)

lemma compute_shaped:
  assumes "has_shape ny nx bz" "has_shape ny nx bz_err" "has_shape ny nx conf_disambig"
    "has_shape ny nx bitmap"
  shows "compute_abs_flux_dask bz bz_err conf_disambig bitmap nx ny rsun_ref rsun_obs cdelt1_arcsec =
     Inr (abs_flux_sum bz conf_disambig bitmap ny nx * pixel_area rsun_ref rsun_obs cdelt1_arcsec,
          fsqrt (sq_err_sum bz bz_err conf_disambig bitmap ny nx)
            * \<bar>pixel_area rsun_ref rsun_obs cdelt1_arcsec\<bar>,
          card (valid_pixels bz conf_disambig bitmap ny nx))"
  using compute_covered [OF assms [THEN has_shape_covers]]
  by (simp only: abs_flux_sum_def sq_err_sum_def pixel_area_def area_regroup area_regroup')

lemma getitem_Inr: "getitem a j i = Inr x \<Longrightarrow> x = a ! j ! i"
  by (simp add: getitem_def split: if_splits)

lemma getitem_readable: "readable a j i \<Longrightarrow> getitem a j i = Inr (a ! j ! i)"
  by (simp add: getitem_def readable_def)

lemma pixel_step_returns:
  assumes "pixel_step bz bz_err conf_disambig bitmap j i s = Inr s'"
  shows "s' = (if valid bz conf_disambig bitmap j i then updated bz bz_err j i s else s)"
  using assms unfolding pixel_step_def valid_def updated_def
  by (auto split: sum.splits if_splits dest!: getitem_Inr)

lemma loop_i_returns:
  "loop_i bz bz_err conf_disambig bitmap j is s = Inr s' \<Longrightarrow>
   s' = contrib bz bz_err
          (filter (\<lambda>(j, i). valid bz conf_disambig bitmap j i) (map (Pair j) is)) s"
proof (induction "is" arbitrary: s)
  case Nil
  then show ?case by (simp add: contrib_Nil)
next
  case (Cons i "is")
  from Cons.prems obtain t where
    t: "pixel_step bz bz_err conf_disambig bitmap j i s = Inr t"
    and r: "loop_i bz bz_err conf_disambig bitmap j is t = Inr s'"
    by (auto split: sum.splits)
  show ?case
    using Cons.IH [OF r] pixel_step_returns [OF t] by (simp add: contrib_Cons)
qed

lemma loop_j_returns:
  "loop_j bz bz_err conf_disambig bitmap nx js s = Inr s' \<Longrightarrow>
   s' = contrib bz bz_err
          (filter (\<lambda>(j, i). valid bz conf_disambig bitmap j i) (List.product js [0..<nx])) s"
proof (induction js arbitrary: s)
  case Nil
  then show ?case by (simp add: contrib_Nil)
next
  case (Cons j js)
  from Cons.prems obtain t where
    t: "loop_i bz bz_err conf_disambig bitmap j [0..<nx] s = Inr t"
    and r: "loop_j bz bz_err conf_disambig bitmap nx js t = Inr s'"
    by (auto split: sum.splits)
  show ?case
    using Cons.IH [OF r] loop_i_returns [OF t] by (simp add: contrib_append)
qed

lemma compute_returns:
  assumes "compute_abs_flux_dask bz bz_err conf_disambig bitmap nx ny rsun_ref rsun_obs cdelt1_arcsec
           = Inr (v, e, n)"
  shows "v = abs_flux_sum bz conf_disambig bitmap ny nx * pixel_area rsun_ref rsun_obs cdelt1_arcsec"
    and "e = fsqrt (sq_err_sum bz bz_err conf_disambig bitmap ny nx)
               * \<bar>pixel_area rsun_ref rsun_obs cdelt1_arcsec\<bar>"
    and "n = card (valid_pixels bz conf_disambig bitmap ny nx)"
proof -
  from assms obtain s where
    s: "loop_j bz bz_err conf_disambig bitmap nx [0..<ny]
          \<lparr>count_mask = 0, sum_acc = Fin 0, err = Fin 0\<rparr> = Inr s"
    and v: "v = sum_acc s * cdelt1_arcsec * cdelt1_arcsec
                  * (rsun_ref / rsun_obs) * (rsun_ref / rsun_obs) * Fin 100 * Fin 100"
    and e: "e = fsqrt (err s) * \<bar>cdelt1_arcsec * cdelt1_arcsec
                  * (rsun_ref / rsun_obs) * (rsun_ref / rsun_obs) * Fin 100 * Fin 100\<bar>"
    and n: "n = count_mask s"
    by (auto simp: compute_abs_flux_dask_def split: sum.splits)
  have s': "s = \<lparr>count_mask = card (valid_pixels bz conf_disambig bitmap ny nx),
                sum_acc = abs_flux_sum bz conf_disambig bitmap ny nx,
                err = sq_err_sum bz bz_err conf_disambig bitmap ny nx\<rparr>"
    using loop_j_returns [OF s]
    by (simp add: contrib_valid_list abs_flux_sum_def sq_err_sum_def)
  show "v = abs_flux_sum bz conf_disambig bitmap ny nx * pixel_area rsun_ref rsun_obs cdelt1_arcsec"
    unfolding v by (simp only: s' pixel_area_def area_regroup acc.simps)
  show "e = fsqrt (sq_err_sum bz bz_err conf_disambig bitmap ny nx)
               * \<bar>pixel_area rsun_ref rsun_obs cdelt1_arcsec\<bar>"
    unfolding e by (simp only: s' pixel_area_def area_regroup' acc.simps)
  show "n = card (valid_pixels bz conf_disambig bitmap ny nx)"
    unfolding n by (simp add: s')
qed

lemma compute_raises:
  assumes "compute_abs_flux_dask bz bz_err conf_disambig bitmap nx ny rsun_ref rsun_obs cdelt1_arcsec
           = Inl x"
  shows "\<not> all_cover ny nx bz bz_err conf_disambig bitmap"
proof
  assume "all_cover ny nx bz bz_err conf_disambig bitmap"
  then have "\<exists>t. compute_abs_flux_dask bz bz_err conf_disambig bitmap nx ny
                   rsun_ref rsun_obs cdelt1_arcsec = Inr t"
    unfolding all_cover_def using compute_covered by blast
  with assms show False by simp
qed

lemma pixel_step_readable:
  assumes "readable conf_disambig j i" "readable bitmap j i" "readable bz j i"
    "readable bz_err j i"
  shows "\<exists>s'. pixel_step bz bz_err conf_disambig bitmap j i s = Inr s'"
  using assms by (simp add: pixel_step_def getitem_readable)

lemma pixel_step_cases:
  "case pixel_step bz bz_err conf_disambig bitmap j i s of
      Inl x \<Rightarrow> \<not> (readable conf_disambig j i \<and> readable bitmap j i
                     \<and> readable bz j i \<and> readable bz_err j i)
    | Inr s' \<Rightarrow>
        s' = (if valid bz conf_disambig bitmap j i then updated bz bz_err j i s else s)"
proof (cases "pixel_step bz bz_err conf_disambig bitmap j i s")
  case (Inl x)
  then show ?thesis
    using pixel_step_readable [of conf_disambig j i bitmap bz bz_err s] by auto
next
  case (Inr s')
  then show ?thesis
    using pixel_step_returns [OF Inr] by simp
qed

lemma compute_cases:
  "case compute_abs_flux_dask bz bz_err conf_disambig bitmap nx ny
          rsun_ref rsun_obs cdelt1_arcsec of
     Inl x \<Rightarrow> \<not> all_cover ny nx bz bz_err conf_disambig bitmap
   | Inr (v, e, n) \<Rightarrow>
       v = abs_flux_sum bz conf_disambig bitmap ny nx
             * pixel_area rsun_ref rsun_obs cdelt1_arcsec
       \<and> e = fsqrt (sq_err_sum bz bz_err conf_disambig bitmap ny nx)
               * \<bar>pixel_area rsun_ref rsun_obs cdelt1_arcsec\<bar>
       \<and> n = card (valid_pixels bz conf_disambig bitmap ny nx)"
proof (cases "compute_abs_flux_dask bz bz_err conf_disambig bitmap nx ny
                rsun_ref rsun_obs cdelt1_arcsec")
  case (Inl x)
  then show ?thesis by (simp add: compute_raises)
next
  case (Inr t)
  obtain v e n where t: "t = (v, e, n)" by (cases t)
  show ?thesis
    using compute_returns [OF Inr [unfolded t]] by (simp add: Inr t)
qed


section \<open>Constant sums, the pixel count and array entries\<close>


lemma valid_pixels_subset: "valid_pixels bz conf_disambig bitmap ny nx \<subseteq> {0..<ny} \<times> {0..<nx}"
  by (auto simp: valid_pixels_def)

lemma valid_pixels_card: "card (valid_pixels bz conf_disambig bitmap ny nx) \<le> ny * nx"
  using card_mono [OF _ valid_pixels_subset [of bz conf_disambig bitmap ny nx]]
  by simp




section \<open>Zero, sign and NaN\<close>

text \<open>
  These facts are about zero, sign and NaN only. They hold for \<open>float64\<close> as they
  hold here, whatever a sum or a product rounds to and whether or not it
  overflows: a product with 0 is 0 or NaN, and sums, squares, absolute values,
  square roots and products of values that are not negative are not negative.
\<close>

lemma zero_times: "zero_or_nan (Fin 0 * x)"
  by (cases x) (simp_all add: zero_or_nan_def signed_inf_def)

lemma zero_or_nan_times: "zero_or_nan a \<Longrightarrow> zero_or_nan (a * x)"
  by (cases a; cases x) (auto simp: zero_or_nan_def signed_inf_def)

lemma never_negative_abs: "never_negative \<bar>v\<bar>" for v :: fval
  by (cases v) (simp_all add: never_negative_def)

lemma never_negative_square: "never_negative (v * v)"
  by (cases v) (simp_all add: never_negative_def)

lemma never_negative_add:
  "never_negative a \<Longrightarrow> never_negative b \<Longrightarrow> never_negative (a + b)"
  by (cases a; cases b) (auto simp: never_negative_def)

lemma never_negative_mult:
  "never_negative a \<Longrightarrow> never_negative b \<Longrightarrow> never_negative (a * b)"
  by (cases a; cases b) (auto simp: never_negative_def signed_inf_def)

lemma never_negative_sqrt: "never_negative a \<Longrightarrow> never_negative (fsqrt a)"
  by (cases a) (auto simp: never_negative_def)

lemma never_negative_sum:
  "(\<And>p. p \<in> A \<Longrightarrow> never_negative (f p)) \<Longrightarrow> never_negative (sum f A)"
  by (induction A rule: infinite_finite_induct)
     (simp_all add: never_negative_add, simp_all add: never_negative_def zero_fval_def)

lemma never_negative_area: "never_negative (pixel_area rsun_ref rsun_obs cdelt1_arcsec)"
  unfolding pixel_area_def
  by (rule never_negative_mult
        [OF never_negative_mult [OF never_negative_square never_negative_square]])
     (simp add: never_negative_def)

lemma never_negative_abs_flux_sum:
  "never_negative (abs_flux_sum bz conf_disambig bitmap ny nx)"
  unfolding abs_flux_sum_def
  by (rule never_negative_sum) (auto simp: never_negative_abs)

lemma never_negative_sq_err_sum:
  "never_negative (sq_err_sum bz bz_err conf_disambig bitmap ny nx)"
  unfolding sq_err_sum_def
  by (rule never_negative_sum) (auto simp: never_negative_square)


section \<open>Negated and updated arrays\<close>

lemma getitem_negated:
  "getitem (negated a) j i = (case getitem a j i of Inl e \<Rightarrow> Inl e | Inr v \<Rightarrow> Inr (- v))"
  by (simp add: getitem_def negated_def)

lemma isnan_uminus: "isnan (- v) = isnan v"
  by (cases v) simp_all

lemma abs_uminus: "\<bar>- v\<bar> = \<bar>v\<bar>" for v :: fval
  by (cases v) simp_all

lemma pixel_step_negated:
  "pixel_step (negated bz) bz_err conf_disambig bitmap j i s =
   pixel_step bz bz_err conf_disambig bitmap j i s"
  by (simp add: pixel_step_def getitem_negated isnan_uminus abs_uminus split: sum.splits)

lemma loop_i_negated:
  "loop_i (negated bz) bz_err conf_disambig bitmap j is s =
   loop_i bz bz_err conf_disambig bitmap j is s"
  by (induction "is" arbitrary: s) (simp_all add: pixel_step_negated split: sum.splits)

lemma loop_j_negated:
  "loop_j (negated bz) bz_err conf_disambig bitmap nx js s =
   loop_j bz bz_err conf_disambig bitmap nx js s"
  by (induction js arbitrary: s) (simp_all add: loop_i_negated split: sum.splits)

lemma setitem_entry:
  "j0 < length a \<Longrightarrow> i0 < length (a ! j0) \<Longrightarrow> j < length a \<Longrightarrow>
   setitem a j0 i0 x ! j ! i = (if j = j0 \<and> i = i0 then x else a ! j ! i)"
  by (simp add: setitem_def nth_list_update)

lemma has_shape_setitem: "has_shape ny nx a \<Longrightarrow> has_shape ny nx (setitem a j i x)"
  unfolding has_shape_def list_all_length setitem_def
  by (cases "j < length a") (auto simp: nth_list_update list_update_beyond)

lemma has_shape_entry:
  assumes "has_shape ny nx a" "j0 < ny" "i0 < nx" "j < ny"
  shows "setitem a j0 i0 x ! j ! i = (if j = j0 \<and> i = i0 then x else a ! j ! i)"
  using assms unfolding has_shape_def list_all_length
  by (intro setitem_entry) simp_all


text \<open>The equations that run the function on a concrete input.\<close>

lemmas run_simps = compute_abs_flux_dask_def pixel_step_def getitem_def upt_conv_Cons
  signed_inf_def Let_def


section \<open>Total unsigned flux: value, uncertainty and pixel count\<close>





text \<open>
  C3. A pixel changes the running variables exactly when its bitmap value is at
  least 30, its confidence is at least 70 and its field value is not NaN, and the
  returned count is the number of such pixels.
\<close>

theorem valid_pixel_count:
  "(case pixel_step bz bz_err conf_disambig bitmap j i s of
      Inl x \<Rightarrow> \<not> (readable conf_disambig j i \<and> readable bitmap j i
                     \<and> readable bz j i \<and> readable bz_err j i)
    | Inr s' \<Rightarrow>
        s' = (if 30 \<le> bitmap ! j ! i \<and> 70 \<le> conf_disambig ! j ! i \<and> \<not> isnan (bz ! j ! i)
              then updated bz bz_err j i s else s))
   \<and> (case compute_abs_flux_dask bz bz_err conf_disambig bitmap nx ny
             rsun_ref rsun_obs cdelt1_arcsec of
        Inl x \<Rightarrow> \<not> all_cover ny nx bz bz_err conf_disambig bitmap
      | Inr (v, e, n) \<Rightarrow>
          n = card {(j, i). j < ny \<and> i < nx \<and> 30 \<le> bitmap ! j ! i
                      \<and> 70 \<le> conf_disambig ! j ! i \<and> \<not> isnan (bz ! j ! i)})"
proof -
  have v: "{(j, i). j < ny \<and> i < nx \<and> 30 \<le> bitmap ! j ! i
              \<and> 70 \<le> conf_disambig ! j ! i \<and> \<not> isnan (bz ! j ! i)}
           = valid_pixels bz conf_disambig bitmap ny nx"
    by (auto simp: valid_pixels_def valid_def)
  show ?thesis
    unfolding v
    using pixel_step_cases [where bz = bz and bz_err = bz_err and conf_disambig = conf_disambig
        and bitmap = bitmap and j = j and i = i and s = s]
      compute_cases [where bz = bz and bz_err = bz_err and conf_disambig = conf_disambig
        and bitmap = bitmap and nx = nx and ny = ny and rsun_ref = rsun_ref
        and rsun_obs = rsun_obs and cdelt1_arcsec = cdelt1_arcsec]
    by (auto simp: valid_def split: sum.splits)
qed

theorem valid_pixel_count_witness:
  "pixel_step [[Fin 1, NaN]] [[Fin 3, Fin 4]] [[70, 90]] [[30, 33]] 0 0
       \<lparr>count_mask = 0, sum_acc = Fin 0, err = Fin 0\<rparr>
     = Inr \<lparr>count_mask = 1, sum_acc = Fin 1, err = Fin 9\<rparr>
   \<and> compute_abs_flux_dask [[Fin 1, NaN]] [[Fin 3, Fin 4]] [[70, 90]] [[30, 33]] 2 1
       (Fin 1) (Fin 2) (Fin (- 1))
     = Inr (Fin 2500, Fin 7500,
            card {(j, i). j < (1 :: nat) \<and> i < (2 :: nat) \<and> 30 \<le> [[30, 33 :: int]] ! j ! i
                    \<and> 70 \<le> [[70, 90 :: int]] ! j ! i \<and> \<not> isnan ([[Fin 1, NaN]] ! j ! i)})"
proof -
  have run: "compute_abs_flux_dask [[Fin 1, NaN]] [[Fin 3, Fin 4]] [[70, 90]] [[30, 33]] 2 1
       (Fin 1) (Fin 2) (Fin (- 1)) = Inr (Fin 2500, Fin 7500, 1)"
    by (simp add: run_simps)
  have step: "pixel_step [[Fin 1, NaN]] [[Fin 3, Fin 4]] [[70, 90]] [[30, 33]] 0 0
       \<lparr>count_mask = 0, sum_acc = Fin 0, err = Fin 0\<rparr>
     = Inr \<lparr>count_mask = 1, sum_acc = Fin 1, err = Fin 9\<rparr>"
    by (simp add: run_simps)
  have c: "(1 :: nat) = card {(j, i). j < (1 :: nat) \<and> i < (2 :: nat)
                    \<and> 30 \<le> [[30, 33 :: int]] ! j ! i
                    \<and> 70 \<le> [[70, 90 :: int]] ! j ! i \<and> \<not> isnan ([[Fin 1, NaN]] ! j ! i)}"
    using valid_pixel_count [where bz = "[[Fin 1, NaN]]" and bz_err = "[[Fin 3, Fin 4]]"
        and conf_disambig = "[[70, 90]]" and bitmap = "[[30, 33]]" and j = 0 and i = 0
        and s = "\<lparr>count_mask = 0, sum_acc = Fin 0, err = Fin 0\<rparr>" and nx = 2 and ny = 1
        and rsun_ref = "Fin 1" and rsun_obs = "Fin 2" and cdelt1_arcsec = "Fin (- 1)",
        THEN conjunct2, unfolded run]
    by (simp only: sum.case prod.case)
  show ?thesis
    unfolding c [symmetric] using step run by (rule conjI)
qed


section \<open>No valid pixel\<close>

text \<open>
  C4, as the code has it. When no pixel is valid and the arrays have the same
  shape, the function does not raise and returns the count 0. There is no branch
  for the empty pixel set: the value is the product of the initial sum \<open>0.0\<close> with
  the geometry factors and the uncertainty is \<open>sqrt(0.0)\<close> times the absolute area
  factor, so each of the two is the number 0 or NaN, for scalars of any kind.
\<close>

theorem no_valid_pixel_zero:
  assumes "has_shape ny nx bz" "has_shape ny nx bz_err" "has_shape ny nx conf_disambig"
    "has_shape ny nx bitmap"
    and "valid_pixels bz conf_disambig bitmap ny nx = {}"
  shows "\<exists>v e. compute_abs_flux_dask bz bz_err conf_disambig bitmap nx ny
                 rsun_ref rsun_obs cdelt1_arcsec = Inr (v, e, 0)
           \<and> v = Fin 0 * cdelt1_arcsec * cdelt1_arcsec
                   * (rsun_ref / rsun_obs) * (rsun_ref / rsun_obs) * Fin 100 * Fin 100
           \<and> e = fsqrt (Fin 0)
                   * \<bar>cdelt1_arcsec * cdelt1_arcsec
                       * (rsun_ref / rsun_obs) * (rsun_ref / rsun_obs) * Fin 100 * Fin 100\<bar>
           \<and> (v = Fin 0 \<or> isnan v) \<and> (e = Fin 0 \<or> isnan e)"
proof -
  let ?v = "Fin 0 * cdelt1_arcsec * cdelt1_arcsec
              * (rsun_ref / rsun_obs) * (rsun_ref / rsun_obs) * Fin 100 * Fin 100"
  let ?a = "cdelt1_arcsec * cdelt1_arcsec
              * (rsun_ref / rsun_obs) * (rsun_ref / rsun_obs) * Fin 100 * Fin 100"
  have z: "(0 :: fval) = Fin 0" by (simp add: zero_fval_def)
  have run: "compute_abs_flux_dask bz bz_err conf_disambig bitmap nx ny
               rsun_ref rsun_obs cdelt1_arcsec = Inr (?v, fsqrt (Fin 0) * \<bar>?a\<bar>, 0)"
    by (simp only: compute_covered [OF assms(1-4) [THEN has_shape_covers]] assms(5)
          sum.empty card.empty z)
  have v: "zero_or_nan ?v"
    by (intro zero_or_nan_times zero_times)
  have "zero_or_nan (Fin 0 * \<bar>?a\<bar>)" by (rule zero_times)
  then have e: "zero_or_nan (fsqrt (Fin 0) * \<bar>?a\<bar>)" by simp
  from run v e show ?thesis
    unfolding zero_or_nan_def by blast
qed

theorem no_valid_pixel_zero_witness:
  "has_shape 1 2 [[Fin 5, NaN]] \<and> has_shape 1 2 [[Fin 1, Fin 1]]
   \<and> has_shape 1 2 [[0, 100 :: int]] \<and> has_shape 1 2 [[40, 40 :: int]]
   \<and> valid_pixels [[Fin 5, NaN]] [[0, 100]] [[40, 40]] 1 2 = {}
   \<and> compute_abs_flux_dask [[Fin 5, NaN]] [[Fin 1, Fin 1]] [[0, 100]] [[40, 40]] 2 1
         (Fin 3) (Fin 2) (Fin 7) = Inr (Fin 0, Fin 0, 0)
   \<and> compute_abs_flux_dask [[Fin 5, NaN]] [[Fin 1, Fin 1]] [[0, 100]] [[40, 40]] 2 1
         (Fin 3) (Fin 0) (Fin 7) = Inr (NaN, NaN, 0)"
proof -
  have e: "valid_pixels [[Fin 5, NaN]] [[0, 100]] [[40, 40]] 1 2 = {}"
    by (simp add: valid_list_set [symmetric] valid_def upt_conv_Cons)
  show ?thesis
    using no_valid_pixel_zero [where ny = 1 and nx = 2 and bz = "[[Fin 5, NaN]]"
        and bz_err = "[[Fin 1, Fin 1]]" and conf_disambig = "[[0, 100]]"
        and bitmap = "[[40, 40]]" and rsun_ref = "Fin 3" and rsun_obs = "Fin 2"
        and cdelt1_arcsec = "Fin 7"]
      no_valid_pixel_zero [where ny = 1 and nx = 2 and bz = "[[Fin 5, NaN]]"
        and bz_err = "[[Fin 1, Fin 1]]" and conf_disambig = "[[0, 100]]"
        and bitmap = "[[40, 40]]" and rsun_ref = "Fin 3" and rsun_obs = "Fin 0"
        and cdelt1_arcsec = "Fin 7"] e
    by (auto simp: has_shape_def signed_inf_def)
qed

text \<open>
  The value is not NaN at ordinary geometry: on a one-pixel patch whose
  confidence is 0, with all three scalars 1, the function returns the numbers 0
  and 0 with the count 0.
\<close>

theorem no_valid_pixel_counterexample:
  "valid_pixels [[Fin 5]] [[0]] [[40]] 1 1 = {}
   \<and> compute_abs_flux_dask [[Fin 5]] [[Fin 1]] [[0]] [[40]] 1 1 (Fin 1) (Fin 1) (Fin 1)
       = Inr (Fin 0, Fin 0, 0)
   \<and> \<not> isnan (Fin 0)"
  by (simp add: run_simps valid_list_set [symmetric] valid_def)


section \<open>The constant-field scenario\<close>




section \<open>Sign of the field\<close>

text \<open>
  C6. Negating every entry of \<open>bz\<close> changes none of the three outputs, nor
  whether the function fails.
\<close>

theorem flux_invariant_under_negation:
  "compute_abs_flux_dask (map (map uminus) bz) bz_err conf_disambig bitmap nx ny
     rsun_ref rsun_obs cdelt1_arcsec =
   compute_abs_flux_dask bz bz_err conf_disambig bitmap nx ny rsun_ref rsun_obs cdelt1_arcsec"
  using loop_j_negated [of bz bz_err conf_disambig bitmap nx "[0..<ny]"]
  by (simp add: compute_abs_flux_dask_def negated_def)


section \<open>The angular pixel scale\<close>

text \<open>
  C7. The pixel scale in arcseconds is computed from \<open>rsun_ref\<close>, \<open>cdelt1\<close>
  and \<open>dsun_obs\<close> as
  \<open>atan(rsun_ref * cdelt1 * (pi/180) / dsun_obs) * (180/pi) * 3600\<close>.
\<close>

theorem cdelt1_arcsec_derived:
  "get_cdelt1_arcsec rsun_ref cdelt1 dsun_obs =
     atan (rsun_ref * cdelt1 * Fin (pi / 180) / dsun_obs) * Fin (180 / pi) * Fin 3600"
  by (simp add: get_cdelt1_arcsec_def radsindeg_def)


section \<open>Values that are not finite\<close>

text \<open>
  C8, as the code has it. A pixel whose field value \<open>bz[j,i]\<close> is NaN is not a
  valid pixel, and the three outputs are those of the same patch with that pixel
  masked out by a confidence of 0, whatever is stored for it in \<open>bz\<close> and
  \<open>bz_err\<close>.
\<close>

theorem nan_field_pixel_excluded:
  assumes "has_shape ny nx bz" "has_shape ny nx bz_err" "has_shape ny nx conf_disambig"
    "has_shape ny nx bitmap"
    and "j0 < ny" "i0 < nx" "isnan (bz ! j0 ! i0)"
  shows "(j0, i0) \<notin> valid_pixels bz conf_disambig bitmap ny nx
         \<and> compute_abs_flux_dask bz bz_err conf_disambig bitmap nx ny
             rsun_ref rsun_obs cdelt1_arcsec
           = compute_abs_flux_dask (setitem bz j0 i0 x) (setitem bz_err j0 i0 y)
               (setitem conf_disambig j0 i0 0) bitmap nx ny rsun_ref rsun_obs cdelt1_arcsec"
proof -
  let ?bz = "setitem bz j0 i0 x"
  let ?bz_err = "setitem bz_err j0 i0 y"
  let ?conf = "setitem conf_disambig j0 i0 0"
  have out: "(j0, i0) \<notin> valid_pixels bz conf_disambig bitmap ny nx"
    using assms(7) by (simp add: valid_pixels_def valid_def)
  have v: "valid ?bz ?conf bitmap j i = valid bz conf_disambig bitmap j i"
    if "j < ny" "i < nx" for j i
    using assms(7) that
    by (simp add: valid_def has_shape_entry [OF assms(1,5,6)] has_shape_entry [OF assms(3,5,6)])
  have V: "valid_pixels ?bz ?conf bitmap ny nx = valid_pixels bz conf_disambig bitmap ny nx"
    unfolding valid_pixels_def using v by auto
  have same: "?bz ! j ! i = bz ! j ! i \<and> ?bz_err ! j ! i = bz_err ! j ! i"
    if "(j, i) \<in> valid_pixels bz conf_disambig bitmap ny nx" for j i
  proof -
    from that have "j < ny" "(j, i) \<noteq> (j0, i0)"
      using out by (auto simp: valid_pixels_def)
    then show ?thesis
      by (auto simp: has_shape_entry [OF assms(1,5,6)] has_shape_entry [OF assms(2,5,6)])
  qed
  have S: "abs_flux_sum ?bz ?conf bitmap ny nx = abs_flux_sum bz conf_disambig bitmap ny nx"
    unfolding abs_flux_sum_def V
    by (rule sum.cong [OF refl]) (auto simp: same)
  have E: "sq_err_sum ?bz ?bz_err ?conf bitmap ny nx
           = sq_err_sum bz bz_err conf_disambig bitmap ny nx"
    unfolding sq_err_sum_def V
    by (rule sum.cong [OF refl]) (auto simp: same)
  have "compute_abs_flux_dask bz bz_err conf_disambig bitmap nx ny
             rsun_ref rsun_obs cdelt1_arcsec
           = compute_abs_flux_dask ?bz ?bz_err ?conf bitmap nx ny
               rsun_ref rsun_obs cdelt1_arcsec"
    by (simp only: compute_shaped [OF assms(1-4)]
          compute_shaped [OF has_shape_setitem [OF assms(1)] has_shape_setitem [OF assms(2)]
            has_shape_setitem [OF assms(3)] assms(4)] S E V)
  with out show ?thesis by simp
qed

theorem nan_field_pixel_excluded_witness:
  "has_shape 1 2 [[Fin 1, NaN]] \<and> has_shape 1 2 [[Fin 3, PInf]]
   \<and> has_shape 1 2 [[70, 90 :: int]] \<and> has_shape 1 2 [[30, 33 :: int]]
   \<and> (0 :: nat) < 1 \<and> (1 :: nat) < 2 \<and> isnan ([[Fin 1, NaN]] ! 0 ! 1)
   \<and> (0, 1) \<notin> valid_pixels [[Fin 1, NaN]] [[70, 90]] [[30, 33]] 1 2
   \<and> compute_abs_flux_dask [[Fin 1, NaN]] [[Fin 3, PInf]] [[70, 90]] [[30, 33]] 2 1
        (Fin 1) (Fin 1) (Fin 1)
      = compute_abs_flux_dask [[Fin 1, Fin 8]] [[Fin 3, Fin 9]] [[70, 0]] [[30, 33]] 2 1
        (Fin 1) (Fin 1) (Fin 1)"
  using nan_field_pixel_excluded [of 1 2 "[[Fin 1, NaN]]" "[[Fin 3, PInf]]" "[[70, 90]]"
      "[[30, 33]]" 0 1 "Fin 1" "Fin 1" "Fin 1" "Fin 8" "Fin 9"]
  by (simp add: has_shape_def setitem_def)

text \<open>
  Only a NaN in \<open>bz\<close> is tested. An infinite \<open>bz\<close> and a NaN \<open>bz_err\<close> at a
  pixel that passes the two thresholds are counted and reach the outputs; with
  the pixel left out the outputs would be 0, 0 and 0.
\<close>

theorem nonfinite_pixel_counterexample:
  "compute_abs_flux_dask [[PInf]] [[Fin 0]] [[100]] [[40]] 1 1 (Fin 1) (Fin 1) (Fin 1)
     = Inr (PInf, Fin 0, 1)
   \<and> compute_abs_flux_dask [[Fin 1]] [[NaN]] [[100]] [[40]] 1 1 (Fin 1) (Fin 1) (Fin 1)
     = Inr (Fin 10000, NaN, 1)
   \<and> compute_abs_flux_dask [[PInf]] [[Fin 0]] [[0]] [[40]] 1 1 (Fin 1) (Fin 1) (Fin 1)
     = Inr (Fin 0, Fin 0, 0)"
  by (simp add: run_simps)


section \<open>Shapes\<close>

text \<open>
  C9, as the code has it. The function does not compare the shapes of its arrays.
  Whenever each of the four arrays has at least \<open>ny\<close> rows and at least \<open>nx\<close>
  entries in each of its first \<open>ny\<close> rows, it returns a triple, whether or not the
  shapes agree.
\<close>

theorem no_shape_check:
  assumes "covers ny nx bz" "covers ny nx bz_err" "covers ny nx conf_disambig"
    "covers ny nx bitmap"
  shows "\<exists>t. compute_abs_flux_dask bz bz_err conf_disambig bitmap nx ny
               rsun_ref rsun_obs cdelt1_arcsec = Inr t"
  using compute_covered [OF assms] by blast

theorem no_shape_check_witness:
  "covers 1 1 [[Fin 1, Fin 2]] \<and> covers 1 1 [[Fin 0]]
   \<and> covers 1 1 [[100, 5], [7, 8 :: int]] \<and> covers 1 1 [[40 :: int], [40], [40]]
   \<and> (\<exists>t. compute_abs_flux_dask [[Fin 1, Fin 2]] [[Fin 0]] [[100, 5], [7, 8]]
              [[40], [40], [40]] 1 1 (Fin 1) (Fin 1) (Fin 1) = Inr t)"
  using no_shape_check [of 1 1 "[[Fin 1, Fin 2]]" "[[Fin 0]]" "[[100, 5], [7, 8]]"
      "[[40], [40], [40]]" "Fin 1" "Fin 1" "Fin 1"]
  by (simp add: covers_def)

text \<open>
  Arrays of three different shapes, and a triple is returned.
\<close>

theorem shape_mismatch_counterexample:
  "shape [[100, 100 :: int]] \<noteq> shape [[Fin 1]]
   \<and> shape [[40], [40 :: int]] \<noteq> shape [[Fin 1]]
   \<and> compute_abs_flux_dask [[Fin 1]] [[Fin 0]] [[100, 100]] [[40], [40]] 1 1
        (Fin 1) (Fin 1) (Fin 1) = Inr (Fin 10000, Fin 0, 1)"
  by (simp add: run_simps shape_def)


section \<open>Signs of the outputs\<close>

text \<open>
  C10, as the code has it. On every input, with finite array entries or not and
  whatever the signs of the field values, the error values and the geometry
  scalars, the function either fails on a read outside an array, which cannot
  happen when the four arrays cover the index range, or returns a value that is
  at least 0 or NaN, an uncertainty that is at least 0 or NaN, and a count that
  is at most \<open>ny * nx\<close>. Neither output is ever negative.
\<close>

theorem outputs_nonnegative:
  "case compute_abs_flux_dask bz bz_err conf_disambig bitmap nx ny
          rsun_ref rsun_obs cdelt1_arcsec of
     Inl x \<Rightarrow> \<not> all_cover ny nx bz bz_err conf_disambig bitmap
   | Inr (v, e, n) \<Rightarrow>
       (nonneg v \<or> isnan v) \<and> (nonneg e \<or> isnan e) \<and> n \<le> ny * nx"
proof (cases "compute_abs_flux_dask bz bz_err conf_disambig bitmap nx ny
                rsun_ref rsun_obs cdelt1_arcsec")
  case (Inl x)
  then show ?thesis by (simp add: compute_raises)
next
  case (Inr t)
  obtain v e n where t: "t = (v, e, n)" by (cases t)
  note r = compute_returns [OF Inr [unfolded t]]
  have v: "never_negative v"
    unfolding r(1)
    by (rule never_negative_mult [OF never_negative_abs_flux_sum never_negative_area])
  have e: "never_negative e"
    unfolding r(2)
    by (rule never_negative_mult
          [OF never_negative_sqrt [OF never_negative_sq_err_sum] never_negative_abs])
  have n: "n \<le> ny * nx"
    unfolding r(3) by (rule valid_pixels_card)
  from v e n show ?thesis
    by (simp add: Inr t never_negative_def)
qed

theorem outputs_nonnegative_witness:
  "compute_abs_flux_dask [[Fin (- 3), Fin 4]] [[Fin (- 1), Fin 0]] [[70, 90]] [[30, 33]] 2 1
       (Fin 1) (Fin (- 2)) (Fin (- 1)) = Inr (Fin 17500, Fin 2500, 2)
   \<and> (nonneg (Fin 17500) \<or> isnan (Fin 17500))
   \<and> (nonneg (Fin 2500) \<or> isnan (Fin 2500))
   \<and> (2 :: nat) \<le> 1 * 2"
proof -
  have run: "compute_abs_flux_dask [[Fin (- 3), Fin 4]] [[Fin (- 1), Fin 0]] [[70, 90]]
       [[30, 33]] 2 1 (Fin 1) (Fin (- 2)) (Fin (- 1)) = Inr (Fin 17500, Fin 2500, 2)"
    by (simp add: run_simps)
  show ?thesis
    using outputs_nonnegative [where bz = "[[Fin (- 3), Fin 4]]"
        and bz_err = "[[Fin (- 1), Fin 0]]" and conf_disambig = "[[70, 90]]"
        and bitmap = "[[30, 33]]" and nx = 2 and ny = 1
        and rsun_ref = "Fin 1" and rsun_obs = "Fin (- 2)" and cdelt1_arcsec = "Fin (- 1)"]
    unfolding run by simp
qed

text \<open>
  NaN does occur with finite array entries: with \<open>rsun_obs = 0\<close> the ratio
  \<open>rsun_ref/rsun_obs\<close> is infinite, and on a patch without a valid pixel the
  product \<open>0 * inf\<close> makes both outputs NaN, which is not at least 0.
\<close>

theorem outputs_nonnegative_counterexample:
  "list_all (list_all isfinite) [[Fin 1]] \<and> list_all (list_all isfinite) [[Fin 2]]
   \<and> compute_abs_flux_dask [[Fin 1]] [[Fin 2]] [[0]] [[40]] 1 1 (Fin 1) (Fin 0) (Fin 1)
       = Inr (NaN, NaN, 0)
   \<and> \<not> nonneg NaN"
  by (simp add: run_simps)


end
